theory Spec2Isabelle
  imports Main
begin

section \<open>The registry and the import sniffer of jurigged (register.py)\<close>

text \<open>
  A shallow embedding of \<^verbatim>\<open>src/jurigged/register.py\<close>: the class \<^verbatim>\<open>Registry\<close>
  (\<^verbatim>\<open>prepare\<close>, \<^verbatim>\<open>get\<close>, \<^verbatim>\<open>auto_register\<close>, \<^verbatim>\<open>find\<close>,
  \<^verbatim>\<open>find_function\<close>) and the class \<^verbatim>\<open>ImportSniffer\<close> (\<^verbatim>\<open>find_module\<close>).
  Mutation of \<^verbatim>\<open>self\<close> is explicit state passing, a raised exception is the \<open>Inl\<close>
  branch of a sum, and Python's \<^verbatim>\<open>None\<close> is \<open>None\<close> of an option type.
\<close>

subsection \<open>Exceptions\<close>

text \<open>
  The exceptions that can occur in the modelled code. \<^verbatim>\<open>KeyboardInterrupt\<close> and
  \<^verbatim>\<open>SystemExit\<close> derive from \<^verbatim>\<open>BaseException\<close> only, so the clause
  \<^verbatim>\<open>except Exception\<close> of \<^verbatim>\<open>find_module\<close> does not catch them.
\<close>

datatype error =
    KeyError
  | OSError
  | UnicodeDecodeError
  | ValueError
  | ModuleNotFoundError
  | RuntimeError
  | KeyboardInterrupt
  | SystemExit

fun is_Exception :: "error \<Rightarrow> bool" where
  "is_Exception KeyboardInterrupt = False"
| "is_Exception SystemExit = False"
| "is_Exception _ = True"

subsection \<open>The environment: files, loaded modules, the metadata collaborator\<close>

text \<open>A module object, read through \<^verbatim>\<open>getattr(module, "__file__", None)\<close> and
  \<^verbatim>\<open>getattr(module, "__name__", None)\<close>.\<close>

record pymodule =
  m_file :: "string option"
  m_name :: "string option"

text \<open>
  What the registry reads and never writes: the file system (\<^verbatim>\<open>open(filename)\<close>
  followed by \<^verbatim>\<open>f.read()\<close>, and \<^verbatim>\<open>os.path.getmtime\<close>, each of which may
  raise), \<^verbatim>\<open>sys.modules\<close> (a dictionary iterated in insertion order, hence an
  association list), and the line-to-definition table that the metadata collaborator
  computes from a snapshot and a live module. The modification time is a number the
  code only stores.
\<close>

record env =
  read_file :: "string \<Rightarrow> error + string"
  getmtime :: "string \<Rightarrow> error + int"
  sys_modules :: "(string \<times> pymodule) list"
  discover :: "string \<Rightarrow> string \<Rightarrow> pymodule \<Rightarrow> (int \<rightharpoonup> string)"

text \<open>\<^verbatim>\<open>d[k]\<close> on a dictionary raises \<^verbatim>\<open>KeyError\<close> for a missing key.\<close>

definition getitem :: "('k \<rightharpoonup> 'v) \<Rightarrow> 'k \<Rightarrow> error + 'v" where
  "getitem d k = (case d k of None \<Rightarrow> Inl KeyError | Some v \<Rightarrow> Inr v)"

text \<open>\<^verbatim>\<open>module_name in sys.modules\<close>; the keys of \<^verbatim>\<open>sys.modules\<close> are strings, so
  \<^verbatim>\<open>None\<close> is never among them.\<close>

definition in_sys_modules :: "env \<Rightarrow> string option \<Rightarrow> bool" where
  "in_sys_modules e module_name =
     (case module_name of None \<Rightarrow> False
      | Some n \<Rightarrow> map_of (sys_modules e) n \<noteq> None)"

definition sys_modules_getitem :: "env \<Rightarrow> string option \<Rightarrow> error + pymodule" where
  "sys_modules_getitem e module_name =
     (case module_name of None \<Rightarrow> Inl KeyError
      | Some n \<Rightarrow> getitem (map_of (sys_modules e)) n)"

subsection \<open>EventSource\<close>

text \<open>
  Modelled from the spec: \<^verbatim>\<open>EventSource\<close> of \<^verbatim>\<open>utils.py\<close>, which is not among the
  sources. A channel is the ordered list of its registered observers, an optional
  history of the emitted events, and (a trace, for stating what was emitted) the list
  of all events emitted so far. \<open>emit\<close> reaches every observer in registration order
  and, when the history is kept, appends the event to it. Observers are named by
  numbers; calling one is not modelled beyond the trace.
\<close>

record 'e event_source =
  save_history :: bool
  listeners :: "nat list"
  history :: "'e list"
  emitted :: "'e list"

definition new_event_source :: "bool \<Rightarrow> 'e event_source" where
  "new_event_source keep =
     \<lparr>save_history = keep, listeners = [], history = [], emitted = []\<rparr>"

definition emit :: "'e \<Rightarrow> 'e event_source \<Rightarrow> 'e event_source" where
  "emit ev src =
     src\<lparr>history := (if save_history src then history src @ [ev] else history src),
         emitted := emitted src @ [ev]\<rparr>"

definition register :: "nat \<Rightarrow> 'e event_source \<Rightarrow> 'e event_source" where
  "register obs src = src\<lparr>listeners := listeners src @ [obs]\<rparr>"

subsection \<open>CodeFile\<close>

text \<open>
  Modelled from the spec: \<^verbatim>\<open>CodeFile\<close> of \<^verbatim>\<open>codefile.py\<close>, which is not among the
  sources. The registry uses its constructor \<^verbatim>\<open>CodeFile(filename, source=...)\<close>, its
  method \<^verbatim>\<open>discover(module)\<close>, its dictionary \<^verbatim>\<open>defnmap\<close> from line numbers to
  definitions and its channel \<^verbatim>\<open>activity\<close>. A \<^verbatim>\<open>CodeFile\<close> is an object: \<open>cf_id\<close>
  is its identity, drawn from the allocation counter of the state, so that two objects
  built from the same snapshot differ. The two observers that \<^verbatim>\<open>get\<close> registers on
  \<^verbatim>\<open>cf.activity\<close> are \<^verbatim>\<open>self.log\<close> and \<^verbatim>\<open>self.activity.emit\<close>.
\<close>

datatype cf_observer = RegistryLog | ForwardToActivity

record codefile =
  cf_id :: nat
  cf_filename :: string
  cf_source :: string
  cf_module :: pymodule
  defnmap :: "int \<rightharpoonup> string"
  cf_activity :: "cf_observer list"

subsection \<open>Registry\<close>

text \<open>
  The fields of \<^verbatim>\<open>Registry.__init__\<close>: \<open>precache\<close> maps a file name to
  \<^verbatim>\<open>(module_name, file_contents, mtime)\<close>, \<open>cache\<close> maps a file name to its
  \<^verbatim>\<open>CodeFile\<close>. Beside them the state carries what the methods do to the process:
  \<open>fresh\<close>, the identity of the next object allocated; \<open>opened\<close>, the names passed to
  \<^verbatim>\<open>open\<close> so far; \<open>meta_path\<close>, the sniffers installed in \<^verbatim>\<open>sys.meta_path\<close>
  (front first), each with the filter of its \<^verbatim>\<open>prep\<close> closure.
\<close>

type_synonym snapshot = "string option \<times> string \<times> int"

record registry =
  precache :: "string \<rightharpoonup> snapshot"
  cache :: "string \<rightharpoonup> codefile"
  precache_activity :: "(string option \<times> string) event_source"
  activity :: "string event_source"
  fresh :: nat
  opened :: "string list"
  meta_path :: "(string \<Rightarrow> bool) list"

definition init :: registry where
  "init = \<lparr>precache = Map.empty, cache = Map.empty,
            precache_activity = new_event_source True,
            activity = new_event_source False,
            fresh = 0, opened = [], meta_path = []\<rparr>"

text \<open>
  \<^verbatim>\<open>prepare\<close>, lines 33 to 41. The tuple is built before it is stored, so a failing
  \<^verbatim>\<open>open\<close>, \<^verbatim>\<open>read\<close> or \<^verbatim>\<open>getmtime\<close> leaves \<open>precache\<close> as it was and emits
  nothing.
\<close>

definition prepare ::
  "env \<Rightarrow> string option \<Rightarrow> string \<Rightarrow> registry \<Rightarrow> (error + unit) \<times> registry" where
  "prepare e module_name filename r =
     (if precache r filename = None \<and> cache r filename = None then
        (let r1 = r\<lparr>opened := opened r @ [filename]\<rparr> in
         case read_file e filename of
           Inl err \<Rightarrow> (Inl err, r1)
         | Inr text \<Rightarrow>
             (case getmtime e filename of
                Inl err \<Rightarrow> (Inl err, r1)
              | Inr mtime \<Rightarrow>
                  (Inr (),
                   r1\<lparr>precache := (precache r1)(filename \<mapsto> (module_name, text, mtime)),
                      precache_activity :=
                        emit (module_name, filename) (precache_activity r1)\<rparr>)))
      else (Inr (), r))"

text \<open>\<^verbatim>\<open>get\<close>, lines 43 to 59.\<close>

definition get ::
  "env \<Rightarrow> string \<Rightarrow> registry \<Rightarrow> (error + codefile option) \<times> registry" where
  "get e filename r =
     (if cache r filename \<noteq> None then
        (case getitem (cache r) filename of
           Inl err \<Rightarrow> (Inl err, r)
         | Inr cf \<Rightarrow> (Inr (Some cf), r))
      else if precache r filename \<noteq> None then
        (case getitem (precache r) filename of
           Inl err \<Rightarrow> (Inl err, r)
         | Inr (module_name, cached_source, mtime) \<Rightarrow>
             if \<not> in_sys_modules e module_name then (Inr None, r)
             else
               (case sys_modules_getitem e module_name of
                  Inl err \<Rightarrow> (Inl err, r\<lparr>fresh := Suc (fresh r)\<rparr>)
                | Inr m \<Rightarrow>
                    (let cf = \<lparr>cf_id = fresh r, cf_filename = filename,
                               cf_source = cached_source, cf_module = m,
                               defnmap = discover e filename cached_source m,
                               cf_activity = [RegistryLog, ForwardToActivity]\<rparr>
                     in (Inr (Some cf),
                         r\<lparr>cache := (cache r)(filename \<mapsto> cf),
                           fresh := Suc (fresh r)\<rparr>))))
      else (Inr None, r))"

text \<open>\<^verbatim>\<open>find\<close>, lines 79 to 84; \<^verbatim>\<open>cf.defnmap.get(lineno, None)\<close> is the lookup of
  the map.\<close>

definition find_reg ::
  "env \<Rightarrow> string \<Rightarrow> int \<Rightarrow> registry \<Rightarrow>
     (error + codefile option \<times> string option) \<times> registry" where
  "find_reg e filename lineno r =
     (case get e filename r of
        (Inl err, r1) \<Rightarrow> (Inl err, r1)
      | (Inr None, r1) \<Rightarrow> (Inr (None, None), r1)
      | (Inr (Some cf), r1) \<Rightarrow> (Inr (Some cf, defnmap cf lineno), r1))"

text \<open>
  The arguments \<^verbatim>\<open>find_function\<close> can receive. A plain function carries
  \<^verbatim>\<open>__module__\<close> (which may be \<^verbatim>\<open>None\<close>) and, in \<^verbatim>\<open>__code__\<close>, the file name
  and first line. \<open>callable\<close> is Python's \<^verbatim>\<open>callable(x)\<close>; the test of the code,
  \<^verbatim>\<open>isinstance(fn, FunctionType)\<close>, holds of plain functions only.
\<close>

record pyfunction =
  fn_module :: "string option"
  co_filename :: string
  co_firstlineno :: int

datatype pyobj =
    PyFunction pyfunction
  | PyBuiltinFunction string
  | PyClass string
  | PyBoundMethod pyfunction
  | PyCallableInstance string
  | PyInt int
  | PyStr string
  | PyNone

fun callable :: "pyobj \<Rightarrow> bool" where
  "callable (PyInt _) = False"
| "callable (PyStr _) = False"
| "callable PyNone = False"
| "callable _ = True"

fun isinstance_FunctionType :: "pyobj \<Rightarrow> bool" where
  "isinstance_FunctionType (PyFunction _) = True"
| "isinstance_FunctionType _ = False"

text \<open>\<^verbatim>\<open>find_function\<close>, lines 86 to 92.\<close>

fun find_function ::
  "env \<Rightarrow> pyobj \<Rightarrow> registry \<Rightarrow>
     (error + codefile option \<times> string option) \<times> registry" where
  "find_function e (PyFunction fn) r =
     (case prepare e (fn_module fn) (co_filename fn) r of
        (Inl err, r1) \<Rightarrow> (Inl err, r1)
      | (Inr _, r1) \<Rightarrow> find_reg e (co_filename fn) (co_firstlineno fn) r1)"
| "find_function e x r = (Inr (None, None), r)"

text \<open>
  \<^verbatim>\<open>auto_register\<close>, lines 61 to 77. \<open>prep\<close> is the closure over the filter; the
  loop runs over \<^verbatim>\<open>sys.modules.items()\<close> and stops at the first exception, which
  leaves the method before the sniffer is built; otherwise the new sniffer goes to the
  front of \<^verbatim>\<open>sys.meta_path\<close>.
\<close>

definition prep ::
  "(string \<Rightarrow> bool) \<Rightarrow> env \<Rightarrow> string option \<Rightarrow> string option \<Rightarrow> registry \<Rightarrow>
     (error + unit) \<times> registry" where
  "prep flt e module_name filename r =
     (case filename of
        None \<Rightarrow> (Inr (), r)
      | Some f \<Rightarrow>
          (case module_name of
             None \<Rightarrow> (Inr (), r)
           | Some n \<Rightarrow> if flt f then prepare e (Some n) f r else (Inr (), r)))"

fun prep_all ::
  "(string \<Rightarrow> bool) \<Rightarrow> env \<Rightarrow> (string \<times> pymodule) list \<Rightarrow> registry \<Rightarrow>
     (error + unit) \<times> registry" where
  "prep_all flt e [] r = (Inr (), r)"
| "prep_all flt e ((name, module) # ms) r =
     (case prep flt e (m_name module) (m_file module) r of
        (Inl err, r1) \<Rightarrow> (Inl err, r1)
      | (Inr _, r1) \<Rightarrow> prep_all flt e ms r1)"

definition auto_register ::
  "(string \<Rightarrow> bool) \<Rightarrow> env \<Rightarrow> registry \<Rightarrow> (error + unit) \<times> registry" where
  "auto_register flt e r =
     (case prep_all flt e (sys_modules e) r of
        (Inl err, r1) \<Rightarrow> (Inl err, r1)
      | (Inr _, r1) \<Rightarrow> (Inr (), r1\<lparr>meta_path := flt # meta_path r1\<rparr>))"

subsection \<open>Sequences of registry operations\<close>

text \<open>
  The public operations of the registry, each run in the environment of its moment:
  files and \<^verbatim>\<open>sys.modules\<close> may change between two calls. A call that raises
  leaves the state it reached; the caller may go on.
\<close>

datatype op =
    Prepare "string option" string
  | Get string
  | Find string int
  | FindFunction pyobj
  | AutoRegister "string \<Rightarrow> bool"

fun step :: "env \<Rightarrow> op \<Rightarrow> registry \<Rightarrow> registry" where
  "step e (Prepare module_name filename) r = snd (prepare e module_name filename r)"
| "step e (Get filename) r = snd (get e filename r)"
| "step e (Find filename lineno) r = snd (find_reg e filename lineno r)"
| "step e (FindFunction x) r = snd (find_function e x r)"
| "step e (AutoRegister flt) r = snd (auto_register flt e r)"

fun run :: "(env \<times> op) list \<Rightarrow> registry \<Rightarrow> registry" where
  "run [] r = r"
| "run ((e, x) # xs) r = run xs (step e x r)"

subsection \<open>ImportSniffer\<close>

text \<open>
  A module spec as \<^verbatim>\<open>find_module\<close> reads it: the class of its loader, its name and
  its origin (each of the two may be \<^verbatim>\<open>None\<close>).
\<close>

datatype loader =
    SourceFileLoader
  | SourcelessFileLoader
  | ExtensionFileLoader
  | BuiltinImporter
  | NoLoader

record mspec =
  ms_loader :: loader
  ms_name :: "string option"
  ms_origin :: "string option"

text \<open>
  One resolution attempt, as the resolution chain presents it to the sniffer: the
  arguments \<^verbatim>\<open>spec\<close> and \<^verbatim>\<open>path\<close> of \<^verbatim>\<open>find_module\<close>, the attempts that
  \<^verbatim>\<open>importlib.util.find_spec(spec, path)\<close> presents to this same sniffer while it
  runs (the chain walks \<^verbatim>\<open>sys.meta_path\<close>, where the sniffer stands in front, and
  resolving a module may resolve others), and what \<^verbatim>\<open>find_spec\<close> then does: it
  raises, or returns a spec or \<^verbatim>\<open>None\<close>.
\<close>

datatype attempt =
  Attempt string "string list option" "attempt list" "error + mspec option"

text \<open>
  The sniffer object: the flag \<open>working\<close> and, for the callback \<^verbatim>\<open>self.report\<close>,
  the state \<open>cb_state\<close> it acts on. Three traces record what the method did: the
  arguments of every call of \<^verbatim>\<open>self.report\<close>, the names for which
  \<^verbatim>\<open>find_spec\<close> was called, and the calls of \<^verbatim>\<open>log.error\<close>.
\<close>

record 's sniffer =
  working :: bool
  cb_state :: 's
  reports :: "(string \<times> string) list"
  resolved :: "string list"
  logged :: "(string \<times> error) list"

type_synonym 's report = "string \<Rightarrow> string \<Rightarrow> 's \<Rightarrow> (error + unit) \<times> 's"

definition new_sniffer :: "'s \<Rightarrow> 's sniffer" where
  "new_sniffer c =
     \<lparr>working = False, cb_state = c, reports = [], resolved = [], logged = []\<rparr>"

text \<open>
  \<^verbatim>\<open>find_module\<close>, lines 117 to 140, and beside it \<open>find_spec\<close>, the call of
  \<^verbatim>\<open>importlib.util.find_spec\<close> as the sniffer sees it: the nested attempts reach
  \<^verbatim>\<open>find_module\<close> in order, an exception of one of them leaves \<^verbatim>\<open>find_spec\<close>,
  and then the outcome of the attempt is delivered. There is no \<^verbatim>\<open>try\<close> around
  \<^verbatim>\<open>find_spec\<close> and no \<^verbatim>\<open>finally\<close>: an exception leaves \<^verbatim>\<open>find_module\<close> with
  \<open>working\<close> as it is at that moment. \<^verbatim>\<open>except Exception\<close> catches the exceptions
  of class \<^verbatim>\<open>Exception\<close> only.
\<close>

fun find_module ::
  "'s report \<Rightarrow> attempt \<Rightarrow> 's sniffer \<Rightarrow> (error + mspec option) \<times> 's sniffer"
and find_spec ::
  "'s report \<Rightarrow> attempt list \<Rightarrow> error + mspec option \<Rightarrow> 's sniffer \<Rightarrow>
     (error + mspec option) \<times> 's sniffer"
where
  "find_module report (Attempt spec path nested outcome) s =
     (if \<not> working s then
        (case find_spec report nested outcome
                (s\<lparr>working := True, resolved := resolved s @ [spec]\<rparr>) of
           (Inl err, s1) \<Rightarrow> (Inl err, s1)
         | (Inr None, s1) \<Rightarrow> (Inr None, s1\<lparr>working := False\<rparr>)
         | (Inr (Some ms), s1) \<Rightarrow>
             (case (ms_loader ms, ms_name ms, ms_origin ms) of
                (SourceFileLoader, Some n, Some f) \<Rightarrow>
                  (case report n f (cb_state s1) of
                     (Inr _, c) \<Rightarrow>
                       (Inr None,
                        s1\<lparr>cb_state := c, reports := reports s1 @ [(n, f)],
                           working := False\<rparr>)
                   | (Inl err, c) \<Rightarrow>
                       if is_Exception err then
                         (Inr None,
                          s1\<lparr>cb_state := c, reports := reports s1 @ [(n, f)],
                             logged := logged s1 @ [(n, err)], working := False\<rparr>)
                       else
                         (Inl err, s1\<lparr>cb_state := c, reports := reports s1 @ [(n, f)]\<rparr>))
              | _ \<Rightarrow> (Inr None, s1\<lparr>working := False\<rparr>)))
      else (Inr None, s))"
| "find_spec report [] outcome s = (outcome, s)"
| "find_spec report (a # as) outcome s =
     (case find_module report a s of
        (Inl err, s1) \<Rightarrow> (Inl err, s1)
      | (Inr _, s1) \<Rightarrow> find_spec report as outcome s1)"

text \<open>The callback that \<^verbatim>\<open>auto_register\<close> gives its sniffer: \<open>prep\<close> with the
  name and the origin of the spec.\<close>

definition registry_report :: "(string \<Rightarrow> bool) \<Rightarrow> env \<Rightarrow> registry report" where
  "registry_report flt e n f r = prep flt e (Some n) (Some f) r"

subsection \<open>Concrete environments\<close>

text \<open>
  A file \<^verbatim>\<open>a.py\<close> that can be read and whose line 1 holds the definition \<^verbatim>\<open>f\<close>;
  every other file is unreadable. In \<open>env_a\<close> the module \<^verbatim>\<open>a\<close> is loaded, in
  \<open>env_none\<close> no module is.
\<close>

definition mod_a :: pymodule where
  "mod_a = \<lparr>m_file = Some ''a.py'', m_name = Some ''a''\<rparr>"

definition env_none :: env where
  "env_none =
     \<lparr>read_file = (\<lambda>f. if f = ''a.py'' then Inr ''def f(): pass'' else Inl OSError),
      getmtime = (\<lambda>f. if f = ''a.py'' then Inr 17 else Inl OSError),
      sys_modules = [],
      discover = (\<lambda>f src m. [1 \<mapsto> ''f''])\<rparr>"

definition env_a :: env where
  "env_a = env_none\<lparr>sys_modules := [(''a'', mod_a)]\<rparr>"

definition fn_f :: pyfunction where
  "fn_f = \<lparr>fn_module = Some ''a'', co_filename = ''a.py'', co_firstlineno = 1\<rparr>"

definition spec_a :: mspec where
  "spec_a = \<lparr>ms_loader = SourceFileLoader, ms_name = Some ''a'', ms_origin = Some ''a.py''\<rparr>"

definition fn_stdin :: pyfunction where
  "fn_stdin =
     \<lparr>fn_module = Some ''__main__'', co_filename = ''<stdin>'', co_firstlineno = 1\<rparr>"

text \<open>
  A resolution of \<^verbatim>\<open>a\<close> during which the chain presents two more attempts to the
  sniffer: \<^verbatim>\<open>a\<close> itself (the sniffer stands in \<^verbatim>\<open>sys.meta_path\<close>) and a
  dependency. The sniffer in the middle of a resolution has its flag set. Four
  callbacks: one that accepts every file for the registry, one that returns, one that
  raises an exception of class \<^verbatim>\<open>Exception\<close>, and one that raises
  \<^verbatim>\<open>KeyboardInterrupt\<close>.
\<close>

definition attempt_a :: attempt where
  "attempt_a =
     Attempt ''a'' None
       [Attempt ''a'' None [] (Inr (Some spec_a)), Attempt ''os'' None [] (Inr None)]
       (Inr (Some spec_a))"

definition busy_sniffer :: "unit sniffer" where
  "busy_sniffer = (new_sniffer ())\<lparr>working := True\<rparr>"

definition accept_all :: "string \<Rightarrow> bool" where
  "accept_all f = True"

definition report_ok :: "unit report" where
  "report_ok n f c = (Inr (), c)"

definition report_failing :: "unit report" where
  "report_failing n f c = (Inl RuntimeError, c)"

definition report_interrupted :: "unit report" where
  "report_interrupted n f c = (Inl KeyboardInterrupt, c)"

subsection \<open>The order on registry states\<close>

text \<open>
  \<open>grows r r'\<close>: every precache entry and every cache entry of \<open>r\<close> is in \<open>r'\<close>
  unchanged, and every cache entry of \<open>r'\<close> either was in \<open>r\<close> or has a precache
  entry beside it in \<open>r'\<close>.
\<close>

definition grows :: "registry \<Rightarrow> registry \<Rightarrow> bool" where
  "grows r r' \<longleftrightarrow>
     (\<forall>p s. precache r p = Some s \<longrightarrow> precache r' p = Some s) \<and>
     (\<forall>p cf. cache r p = Some cf \<longrightarrow> cache r' p = Some cf) \<and>
     (\<forall>p. cache r' p \<noteq> None \<longrightarrow> cache r p \<noteq> None \<or> precache r' p \<noteq> None)"

section \<open>Properties\<close>

subsection \<open>What one call of \<open>get\<close> and \<open>prepare\<close> does\<close>

lemma get_unknown:
  "precache r p = None \<Longrightarrow> cache r p = None \<Longrightarrow> get e p r = (Inr None, r)"
  by (simp add: get_def)

lemma get_cached: "cache r p = Some cf \<Longrightarrow> get e p r = (Inr (Some cf), r)"
  by (simp add: get_def getitem_def)

lemma get_stale:
  "precache r p = Some (mn, src, mt) \<Longrightarrow> cache r p = None \<Longrightarrow> \<not> in_sys_modules e mn
   \<Longrightarrow> get e p r = (Inr None, r)"
  by (simp add: get_def getitem_def)

lemma get_promote:
  "precache r p = Some (mn, src, mt) \<Longrightarrow> cache r p = None \<Longrightarrow> in_sys_modules e mn
   \<Longrightarrow> \<exists>m. sys_modules_getitem e mn = Inr m \<and>
        get e p r =
          (Inr (Some \<lparr>cf_id = fresh r, cf_filename = p, cf_source = src, cf_module = m,
                      defnmap = discover e p src m,
                      cf_activity = [RegistryLog, ForwardToActivity]\<rparr>),
           r\<lparr>cache := (cache r)(p \<mapsto>
                \<lparr>cf_id = fresh r, cf_filename = p, cf_source = src, cf_module = m,
                 defnmap = discover e p src m,
                 cf_activity = [RegistryLog, ForwardToActivity]\<rparr>),
             fresh := Suc (fresh r)\<rparr>)"
  by (auto simp: get_def getitem_def in_sys_modules_def sys_modules_getitem_def Let_def
      split: option.splits)

lemma get_no_error: "\<exists>res. fst (get e p r) = Inr res"
  by (auto simp: get_def getitem_def in_sys_modules_def sys_modules_getitem_def Let_def
      split: option.splits sum.splits prod.splits)

lemma prepare_known:
  "precache r p \<noteq> None \<or> cache r p \<noteq> None \<Longrightarrow> prepare e m p r = (Inr (), r)"
  by (auto simp: prepare_def)

lemma prepare_stores:
  "precache r p = None \<Longrightarrow> cache r p = None \<Longrightarrow> prepare e m p r = (Inr (), r1) \<Longrightarrow>
   \<exists>text mt. read_file e p = Inr text \<and> getmtime e p = Inr mt \<and>
     precache r1 p = Some (m, text, mt) \<and> cache r1 p = None"
  by (auto simp: prepare_def Let_def split: sum.splits)

lemma find_function_guard:
  "\<not> isinstance_FunctionType x \<Longrightarrow> find_function e x r = (Inr (None, None), r)"
  by (cases x) simp_all

lemma not_callable_not_function: "\<not> callable x \<Longrightarrow> \<not> isinstance_FunctionType x"
  by (cases x) simp_all

subsection \<open>A stale module\<close>

text \<open>
  Claim C7. When the precache holds an entry for \<open>p\<close>, the cache holds none, and the
  module the entry names is not in \<^verbatim>\<open>sys.modules\<close>, \<open>get\<close> returns \<^verbatim>\<open>None\<close>, does
  not raise, and leaves the whole state as it was: no entity is built and neither
  table changes. This is so in particular right after the \<open>prepare\<close> that stored the
  entry.
\<close>

theorem get_stale_module:
  "(precache r p = Some (mn, src, mt) \<and> cache r p = None \<and> \<not> in_sys_modules e mn
      \<longrightarrow> get e p r = (Inr None, r)) \<and>
   (precache r0 p = None \<and> cache r0 p = None \<and> prepare e0 mn p r0 = (Inr (), r1) \<and>
    \<not> in_sys_modules e mn
      \<longrightarrow> get e p r1 = (Inr None, r1))"
proof (intro conjI impI)
  assume "precache r p = Some (mn, src, mt) \<and> cache r p = None \<and> \<not> in_sys_modules e mn"
  then show "get e p r = (Inr None, r)"
    by (simp add: get_stale)
next
  assume a: "precache r0 p = None \<and> cache r0 p = None \<and>
    prepare e0 mn p r0 = (Inr (), r1) \<and> \<not> in_sys_modules e mn"
  then obtain s t where "precache r1 p = Some (mn, s, t)" and "cache r1 p = None"
    using prepare_stores [of r0 p e0 mn r1] by blast
  with a show "get e p r1 = (Inr None, r1)"
    by (simp add: get_stale)
qed

theorem get_stale_module_witness:
  "precache init ''a.py'' = None \<and> cache init ''a.py'' = None \<and>
   fst (prepare env_a (Some ''a'') ''a.py'' init) = Inr () \<and>
   \<not> in_sys_modules env_none (Some ''a'') \<and>
   get env_none ''a.py'' (snd (prepare env_a (Some ''a'') ''a.py'' init)) =
     (Inr None, snd (prepare env_a (Some ''a'') ''a.py'' init))"
proof -
  define r1 where "r1 = snd (prepare env_a (Some ''a'') ''a.py'' init)"
  have h: "precache init ''a.py'' = None \<and> cache init ''a.py'' = None"
    by (simp add: init_def)
  have ok: "fst (prepare env_a (Some ''a'') ''a.py'' init) = Inr ()"
    by (simp add: prepare_def init_def env_a_def env_none_def Let_def)
  have un: "\<not> in_sys_modules env_none (Some ''a'')"
    by (simp add: in_sys_modules_def env_none_def)
  have pr: "prepare env_a (Some ''a'') ''a.py'' init = (Inr (), r1)"
    using ok by (simp add: prod_eq_iff r1_def)
  have "get env_none ''a.py'' r1 = (Inr None, r1)"
    using get_stale_module [of init "''a.py''" "Some ''a''" "[]" 0 env_none init env_a r1]
      h un pr
    by blast
  with h ok un show ?thesis
    unfolding r1_def by blast
qed

subsection \<open>Unknown files and unbound lines\<close>

text \<open>
  Claim C8. For a file name \<open>p\<close> that is in neither table, \<open>get\<close> returns \<^verbatim>\<open>None\<close>
  and \<open>find\<close> returns \<^verbatim>\<open>(None, None)\<close> for every line, the state unchanged. When
  \<open>get\<close> returns an entity for \<open>p\<close> and the line \<open>L\<close> is not a key of its
  \<open>defnmap\<close>, \<open>find\<close> returns that entity and \<^verbatim>\<open>None\<close>. Neither call raises.
\<close>

theorem find_unknown_or_unbound:
  "(precache r p = None \<and> cache r p = None
      \<longrightarrow> get e p r = (Inr None, r) \<and> find_reg e p L r = (Inr (None, None), r)) \<and>
   (get e p r = (Inr (Some cf), r1) \<and> defnmap cf L = None
      \<longrightarrow> find_reg e p L r = (Inr (Some cf, None), r1))"
  by (simp add: find_reg_def get_unknown)

theorem find_unknown_or_unbound_witness:
  "precache init ''b.py'' = None \<and> cache init ''b.py'' = None \<and>
   get env_a ''b.py'' init = (Inr None, init) \<and>
   find_reg env_a ''b.py'' 7 init = (Inr (None, None), init) \<and>
   (\<exists>cf r2. get env_a ''a.py'' (snd (prepare env_a (Some ''a'') ''a.py'' init)) =
        (Inr (Some cf), r2) \<and>
      defnmap cf 2 = None \<and>
      find_reg env_a ''a.py'' 2 (snd (prepare env_a (Some ''a'') ''a.py'' init)) =
        (Inr (Some cf, None), r2))"
proof -
  define r1 where "r1 = snd (prepare env_a (Some ''a'') ''a.py'' init)"
  have h: "precache init ''b.py'' = None \<and> cache init ''b.py'' = None"
    by (simp add: init_def)
  note t = find_unknown_or_unbound [where r = init and p = "''b.py''" and e = env_a
      and L = 7]
  have a: "get env_a ''b.py'' init = (Inr None, init) \<and>
      find_reg env_a ''b.py'' 7 init = (Inr (None, None), init)"
    by (rule t [THEN conjunct1, rule_format]) (rule h)
  have pre: "precache r1 ''a.py'' = Some (Some ''a'', ''def f(): pass'', 17)"
    and nc: "cache r1 ''a.py'' = None"
    by (simp_all add: r1_def prepare_def init_def env_a_def env_none_def Let_def)
  have "in_sys_modules env_a (Some ''a'')"
    by (simp add: in_sys_modules_def env_a_def)
  with pre nc obtain cf r2 where g: "get env_a ''a.py'' r1 = (Inr (Some cf), r2)"
    and d: "defnmap cf = discover env_a ''a.py'' ''def f(): pass'' (cf_module cf)"
    using get_promote [of r1 "''a.py''" "Some ''a''" "''def f(): pass''" 17 env_a]
    by fastforce
  have d2: "defnmap cf 2 = None"
    by (simp add: d env_a_def env_none_def)
  note u = find_unknown_or_unbound [where r = r1 and p = "''a.py''" and e = env_a
      and L = 2 and cf = cf and ?r1.0 = r2]
  have f: "find_reg env_a ''a.py'' 2 r1 = (Inr (Some cf, None), r2)"
    by (rule u [THEN conjunct2, rule_format]) (simp add: g d2)
  have "\<exists>cf r2. get env_a ''a.py'' r1 = (Inr (Some cf), r2) \<and> defnmap cf 2 = None \<and>
      find_reg env_a ''a.py'' 2 r1 = (Inr (Some cf, None), r2)"
    using g d2 f by blast
  with h a show ?thesis
    unfolding r1_def by simp
qed

subsection \<open>The guard of \<open>find_function\<close>\<close>

text \<open>
  Claim C9. For an argument that is not callable, \<open>find_function\<close> returns
  \<^verbatim>\<open>(None, None)\<close> and the state after the call is the state before it: precache,
  cache, both channels (listeners, history, emitted events) and the list of opened
  files are unchanged.
\<close>

theorem find_function_not_callable:
  "\<not> callable x \<Longrightarrow> find_function e x r = (Inr (None, None), r)"
  by (simp add: find_function_guard not_callable_not_function)

theorem find_function_not_callable_witness:
  "\<not> callable (PyInt 3) \<and> find_function env_a (PyInt 3) init = (Inr (None, None), init)"
  using find_function_not_callable [of "PyInt 3" env_a init] by simp

text \<open>
  Claim C10. The guard tests the type, not callability: for every argument that is not
  a plain function, \<open>find_function\<close> returns \<^verbatim>\<open>(None, None)\<close> with the state
  unchanged, and this includes the callable arguments that are builtin functions,
  classes, bound methods and instances with \<^verbatim>\<open>__call__\<close>.
\<close>

theorem find_function_guard_by_type:
  "(\<not> isinstance_FunctionType x \<longrightarrow> find_function e x r = (Inr (None, None), r)) \<and>
   (callable (PyBuiltinFunction b) \<and>
    find_function e (PyBuiltinFunction b) r = (Inr (None, None), r)) \<and>
   (callable (PyClass c) \<and> find_function e (PyClass c) r = (Inr (None, None), r)) \<and>
   (callable (PyBoundMethod f) \<and>
    find_function e (PyBoundMethod f) r = (Inr (None, None), r)) \<and>
   (callable (PyCallableInstance i) \<and>
    find_function e (PyCallableInstance i) r = (Inr (None, None), r))"
  by (simp add: find_function_guard)

theorem find_function_guard_by_type_witness:
  "callable (PyBoundMethod fn_f) \<and> \<not> isinstance_FunctionType (PyBoundMethod fn_f) \<and>
   find_function env_a (PyBoundMethod fn_f) init = (Inr (None, None), init)"
  using find_function_guard_by_type [of "PyBoundMethod fn_f" env_a init]
  by simp

subsection \<open>Lookups do not raise\<close>

lemma find_reg_no_error: "\<exists>res. fst (find_reg e p L r) = Inr res"
proof -
  obtain res where "fst (get e p r) = Inr res"
    using get_no_error by blast
  then show ?thesis
    by (cases "get e p r"; cases res) (simp_all add: find_reg_def)
qed

lemma prepare_error_iff:
  "fst (prepare e m p r) = Inl err \<longleftrightarrow>
     precache r p = None \<and> cache r p = None \<and>
     (read_file e p = Inl err \<or> (\<exists>s. read_file e p = Inr s) \<and> getmtime e p = Inl err)"
  by (auto simp: prepare_def Let_def split: sum.splits)

lemma find_function_error:
  "fst (find_function e x r) = Inl err \<Longrightarrow>
   \<exists>fn. x = PyFunction fn \<and> fst (prepare e (fn_module fn) (co_filename fn) r) = Inl err"
proof (cases x)
  case (PyFunction fn)
  assume a: "fst (find_function e x r) = Inl err"
  obtain res r1 where p: "prepare e (fn_module fn) (co_filename fn) r = (res, r1)"
    by (cases "prepare e (fn_module fn) (co_filename fn) r")
  show ?thesis
  proof (cases res)
    case (Inl e1)
    with a p PyFunction show ?thesis by simp
  next
    case (Inr u)
    obtain v where "fst (find_reg e (co_filename fn) (co_firstlineno fn) r1) = Inr v"
      using find_reg_no_error by blast
    with a p PyFunction Inr show ?thesis by simp
  qed
qed simp_all

text \<open>
  Claim C2. \<open>get\<close> and \<open>find\<close> never raise: each returns a value, present or absent.
  \<open>find_function\<close> returns a pair, or is given a plain function and raises exactly
  the exception that its call of \<open>prepare\<close> raises. \<open>prepare\<close> raises \<open>err\<close> exactly
  when the file is in neither table and reading it (\<^verbatim>\<open>open\<close> and \<^verbatim>\<open>read\<close>, then
  \<^verbatim>\<open>getmtime\<close>) raises \<open>err\<close>: the failure reaches the caller as it is.
\<close>

theorem lookups_total:
  "(\<exists>res. fst (get e p r) = Inr res) \<and>
   (\<exists>res. fst (find_reg e p L r) = Inr res) \<and>
   ((\<exists>res. fst (find_function e x r) = Inr res) \<or>
    (\<exists>fn err. x = PyFunction fn \<and> fst (find_function e x r) = Inl err \<and>
       fst (prepare e (fn_module fn) (co_filename fn) r) = Inl err)) \<and>
   (fst (prepare e m p r) = Inl err \<longleftrightarrow>
      precache r p = None \<and> cache r p = None \<and>
      (read_file e p = Inl err \<or> (\<exists>s. read_file e p = Inr s) \<and> getmtime e p = Inl err))"
proof (intro conjI)
  show "\<exists>res. fst (get e p r) = Inr res" by (rule get_no_error)
  show "\<exists>res. fst (find_reg e p L r) = Inr res" by (rule find_reg_no_error)
  show "(\<exists>res. fst (find_function e x r) = Inr res) \<or>
    (\<exists>fn err. x = PyFunction fn \<and> fst (find_function e x r) = Inl err \<and>
       fst (prepare e (fn_module fn) (co_filename fn) r) = Inl err)"
  proof (cases "fst (find_function e x r)")
    case (Inl err)
    then show ?thesis using find_function_error [of e x r err] by auto
  next
    case (Inr res)
    then show ?thesis by simp
  qed
  show "fst (prepare e m p r) = Inl err \<longleftrightarrow>
      precache r p = None \<and> cache r p = None \<and>
      (read_file e p = Inl err \<or> (\<exists>s. read_file e p = Inr s) \<and> getmtime e p = Inl err)"
    by (rule prepare_error_iff)
qed

theorem lookups_total_witness:
  "fst (find_function env_a (PyFunction fn_stdin) init) = Inl OSError \<and>
   read_file env_a (co_filename fn_stdin) = Inl OSError \<and>
   fst (prepare env_a (Some ''__main__'') ''<stdin>'' init) = Inl OSError \<and>
   fst (get env_a ''<stdin>'' init) = Inr None \<and>
   fst (find_reg env_a ''<stdin>'' 1 init) = Inr (None, None)"
  using lookups_total [of env_a "''<stdin>''" init 1 "PyFunction fn_stdin"
      "Some ''__main__''" OSError]
  by (simp add: fn_stdin_def env_a_def env_none_def init_def prepare_def get_def
      find_reg_def Let_def)

subsection \<open>\<open>prepare\<close> is idempotent\<close>

text \<open>
  Claim C6. When \<open>p\<close> is in the precache or in the cache, \<open>prepare\<close> with any
  module name returns with the state unchanged: the snapshot stays, no event is emitted,
  no file is opened. In particular a second \<open>prepare\<close> for \<open>p\<close> after one that
  returned changes nothing, in any environment. When \<open>p\<close> is in neither table and the
  read succeeds, the entry \<open>(m, text, mtime)\<close> is stored and one event \<open>(m, p)\<close> is
  emitted. An event is emitted, and the entry of \<open>p\<close> changes, only in that case.
\<close>

theorem prepare_idempotent:
  "(precache r p \<noteq> None \<or> cache r p \<noteq> None \<longrightarrow> prepare e m' p r = (Inr (), r)) \<and>
   (prepare e m p r = (Inr (), r') \<longrightarrow> prepare e' m' p r' = (Inr (), r')) \<and>
   (precache r p = None \<and> cache r p = None \<and> read_file e p = Inr src \<and>
    getmtime e p = Inr mt \<longrightarrow>
      prepare e m p r =
        (Inr (), r\<lparr>opened := opened r @ [p],
                   precache := (precache r)(p \<mapsto> (m, src, mt)),
                   precache_activity := emit (m, p) (precache_activity r)\<rparr>)) \<and>
   emitted (precache_activity (snd (prepare e m p r))) =
     (if precache r p = None \<and> cache r p = None \<and> fst (prepare e m p r) = Inr ()
      then emitted (precache_activity r) @ [(m, p)]
      else emitted (precache_activity r)) \<and>
   (precache (snd (prepare e m p r)) p \<noteq> precache r p
      \<longrightarrow> precache r p = None \<and> cache r p = None \<and> fst (prepare e m p r) = Inr ())"
proof -
  have c1: "precache r p \<noteq> None \<or> cache r p \<noteq> None \<longrightarrow> prepare e m' p r = (Inr (), r)"
    by (simp add: prepare_known)
  have c2: "prepare e m p r = (Inr (), r') \<longrightarrow> prepare e' m' p r' = (Inr (), r')"
  proof
    assume a: "prepare e m p r = (Inr (), r')"
    have "precache r' p \<noteq> None \<or> cache r' p \<noteq> None"
    proof (cases "precache r p = None \<and> cache r p = None")
      case True
      then show ?thesis using prepare_stores [of r p e m r'] a by auto
    next
      case False
      then have "prepare e m p r = (Inr (), r)" by (simp add: prepare_known)
      with a False show ?thesis by auto
    qed
    then show "prepare e' m' p r' = (Inr (), r')" by (rule prepare_known)
  qed
  have c3: "precache r p = None \<and> cache r p = None \<and> read_file e p = Inr src \<and>
    getmtime e p = Inr mt \<longrightarrow>
      prepare e m p r =
        (Inr (), r\<lparr>opened := opened r @ [p],
                   precache := (precache r)(p \<mapsto> (m, src, mt)),
                   precache_activity := emit (m, p) (precache_activity r)\<rparr>)"
    by (simp add: prepare_def Let_def)
  have c4: "emitted (precache_activity (snd (prepare e m p r))) =
     (if precache r p = None \<and> cache r p = None \<and> fst (prepare e m p r) = Inr ()
      then emitted (precache_activity r) @ [(m, p)]
      else emitted (precache_activity r))"
    by (auto simp: prepare_def Let_def emit_def split: sum.splits)
  have c5: "precache (snd (prepare e m p r)) p \<noteq> precache r p
      \<longrightarrow> precache r p = None \<and> cache r p = None \<and> fst (prepare e m p r) = Inr ()"
    by (auto simp: prepare_def Let_def split: sum.splits if_splits)
  show ?thesis
    by (intro conjI) (rule c1, rule c2, rule c3, rule c4, rule c5)
qed


theorem prepare_idempotent_witness:
  "precache init ''a.py'' = None \<and> cache init ''a.py'' = None \<and>
   read_file env_a ''a.py'' = Inr ''def f(): pass'' \<and> getmtime env_a ''a.py'' = Inr 17 \<and>
   precache (snd (prepare env_a (Some ''a'') ''a.py'' init)) ''a.py'' =
     Some (Some ''a'', ''def f(): pass'', 17) \<and>
   emitted (precache_activity (snd (prepare env_a (Some ''a'') ''a.py'' init))) =
     [(Some ''a'', ''a.py'')] \<and>
   prepare env_none (Some ''b'') ''a.py'' (snd (prepare env_a (Some ''a'') ''a.py'' init)) =
     (Inr (), snd (prepare env_a (Some ''a'') ''a.py'' init))"
proof -
  define r1 where "r1 = snd (prepare env_a (Some ''a'') ''a.py'' init)"
  have h: "precache init ''a.py'' = None \<and> cache init ''a.py'' = None \<and>
      read_file env_a ''a.py'' = Inr ''def f(): pass'' \<and> getmtime env_a ''a.py'' = Inr 17"
    by (simp add: init_def env_a_def env_none_def)
  have em: "emitted (precache_activity init) = []"
    by (simp add: init_def new_event_source_def)
  note t = prepare_idempotent [where r = init and p = "''a.py''" and e = env_a
      and m = "Some ''a''" and m' = "Some ''b''" and r' = r1 and e' = env_none
      and src = "''def f(): pass''" and mt = 17]
  note t2 = t [THEN conjunct2, THEN conjunct1, rule_format]
  note t3 = t [THEN conjunct2, THEN conjunct2, THEN conjunct1, rule_format]
  have pr: "prepare env_a (Some ''a'') ''a.py'' init =
      (Inr (), init\<lparr>opened := opened init @ [''a.py''],
         precache := (precache init)(''a.py'' \<mapsto> (Some ''a'', ''def f(): pass'', 17)),
         precache_activity := emit (Some ''a'', ''a.py'') (precache_activity init)\<rparr>)"
    by (rule t3) (rule h)
  then have r1: "prepare env_a (Some ''a'') ''a.py'' init = (Inr (), r1)"
    by (simp add: r1_def)
  have again: "prepare env_none (Some ''b'') ''a.py'' r1 = (Inr (), r1)"
    by (rule t2) (rule r1)
  have stored: "precache r1 ''a.py'' = Some (Some ''a'', ''def f(): pass'', 17)"
    using pr by (simp add: r1_def)
  have ev: "emitted (precache_activity r1) = [(Some ''a'', ''a.py'')]"
    using pr em by (simp add: r1_def emit_def)
  from h stored ev again show ?thesis
    unfolding r1_def by simp
qed

subsection \<open>Entries are never removed or replaced\<close>

lemma grows_refl: "grows r r"
  by (simp add: grows_def)

lemma grows_trans: "grows r r' \<Longrightarrow> grows r' r'' \<Longrightarrow> grows r r''"
  unfolding grows_def
  apply (intro conjI allI impI)
    apply blast
   apply blast
  apply (metis option.exhaust)
  done

lemma prepare_grows: "grows r (snd (prepare e m p r))"
  by (auto simp: prepare_def grows_def Let_def split: sum.splits)

lemma grows_promote:
  "precache r p \<noteq> None \<Longrightarrow> cache r p = None \<Longrightarrow>
   grows r (r\<lparr>cache := (cache r)(p \<mapsto> cf), fresh := n\<rparr>)"
  by (simp add: grows_def)

lemma get_grows: "grows r (snd (get e p r))"
proof (cases "cache r p")
  case (Some cf)
  then show ?thesis by (simp add: get_cached grows_refl)
next
  case None
  show ?thesis
  proof (cases "precache r p")
    case pn: None
    with None show ?thesis by (simp add: get_unknown grows_refl)
  next
    case (Some s)
    obtain mn src mt where s: "s = (mn, src, mt)" by (cases s)
    show ?thesis
    proof (cases "in_sys_modules e mn")
      case True
      then obtain m where "get e p r =
          (Inr (Some \<lparr>cf_id = fresh r, cf_filename = p, cf_source = src, cf_module = m,
                      defnmap = discover e p src m,
                      cf_activity = [RegistryLog, ForwardToActivity]\<rparr>),
           r\<lparr>cache := (cache r)(p \<mapsto>
                \<lparr>cf_id = fresh r, cf_filename = p, cf_source = src, cf_module = m,
                 defnmap = discover e p src m,
                 cf_activity = [RegistryLog, ForwardToActivity]\<rparr>),
             fresh := Suc (fresh r)\<rparr>)"
        using get_promote [of r p mn src mt e] None Some s by blast
      then show ?thesis
        using None Some by (simp add: grows_promote)
    next
      case False
      then show ?thesis
        using None Some s by (simp add: get_stale grows_refl)
    qed
  qed
qed

lemma find_reg_snd: "snd (find_reg e p L r) = snd (get e p r)"
  by (simp add: find_reg_def split: prod.splits sum.splits option.splits)

lemma find_reg_grows: "grows r (snd (find_reg e p L r))"
  by (simp add: find_reg_snd get_grows)

lemma find_function_grows: "grows r (snd (find_function e x r))"
proof (cases x)
  case (PyFunction fn)
  obtain res r1 where p: "prepare e (fn_module fn) (co_filename fn) r = (res, r1)"
    by (cases "prepare e (fn_module fn) (co_filename fn) r")
  have g1: "grows r r1"
    using prepare_grows [of r e "fn_module fn" "co_filename fn"] p by simp
  show ?thesis
  proof (cases res)
    case (Inl err)
    with p PyFunction g1 show ?thesis by simp
  next
    case (Inr u)
    have "grows r1 (snd (find_reg e (co_filename fn) (co_firstlineno fn) r1))"
      by (rule find_reg_grows)
    with g1 have "grows r (snd (find_reg e (co_filename fn) (co_firstlineno fn) r1))"
      by (rule grows_trans)
    with p PyFunction Inr show ?thesis by simp
  qed
qed (simp_all add: grows_refl)

lemma prep_grows: "grows r (snd (prep flt e mn fo r))"
  by (simp add: prep_def prepare_grows grows_refl split: option.splits)

lemma prep_all_grows: "grows r (snd (prep_all flt e ms r))"
proof (induction ms arbitrary: r)
  case Nil
  show ?case by (simp add: grows_refl)
next
  case (Cons a ms)
  obtain name module where a: "a = (name, module)" by (cases a)
  obtain res r1 where p: "prep flt e (m_name module) (m_file module) r = (res, r1)"
    by (cases "prep flt e (m_name module) (m_file module) r")
  have g1: "grows r r1"
    using prep_grows [of r flt e "m_name module" "m_file module"] p by simp
  show ?case
  proof (cases res)
    case (Inl err)
    with a p g1 show ?thesis by simp
  next
    case (Inr u)
    have "grows r (snd (prep_all flt e ms r1))"
      using g1 Cons.IH by (rule grows_trans)
    with a p Inr show ?thesis by simp
  qed
qed

lemma grows_meta_path: "grows r r' \<Longrightarrow> grows r (r'\<lparr>meta_path := mp\<rparr>)"
  by (simp add: grows_def)

lemma auto_register_grows: "grows r (snd (auto_register flt e r))"
proof -
  obtain res r1 where p: "prep_all flt e (sys_modules e) r = (res, r1)"
    by (cases "prep_all flt e (sys_modules e) r")
  have "grows r r1"
    using prep_all_grows [of r flt e "sys_modules e"] p by simp
  with p show ?thesis
    by (cases res) (simp_all add: auto_register_def grows_meta_path)
qed

lemma step_grows: "grows r (step e x r)"
  by (cases x)
    (simp_all add: prepare_grows get_grows find_reg_grows find_function_grows
      auto_register_grows)

lemma run_grows: "grows r (run ops r)"
proof (induction ops arbitrary: r)
  case Nil
  show ?case by (simp add: grows_refl)
next
  case (Cons a ops)
  obtain e x where a: "a = (e, x)" by (cases a)
  have "grows r (step e x r)" by (rule step_grows)
  then have "grows r (run ops (step e x r))"
    using Cons.IH by (rule grows_trans)
  with a show ?case by simp
qed

lemma cache_in_precache:
  "(\<forall>p. cache r p \<noteq> None \<longrightarrow> precache r p \<noteq> None) \<Longrightarrow> grows r r' \<Longrightarrow>
   cache r' p \<noteq> None \<Longrightarrow> precache r' p \<noteq> None"
  unfolding grows_def by blast

lemma grows_precacheD: "grows r r' \<Longrightarrow> precache r p = Some s \<Longrightarrow> precache r' p = Some s"
  unfolding grows_def by blast

lemma grows_cacheD: "grows r r' \<Longrightarrow> cache r p = Some cf \<Longrightarrow> cache r' p = Some cf"
  unfolding grows_def by blast

lemma run_precache: "precache r p = Some s \<Longrightarrow> precache (run ops r) p = Some s"
  using run_grows [of r ops] by (rule grows_precacheD)

lemma run_cache: "cache r p = Some cf \<Longrightarrow> cache (run ops r) p = Some cf"
  using run_grows [of r ops] by (rule grows_cacheD)

lemma run_init_cache_in_precache:
  "cache (run ops init) p \<noteq> None \<Longrightarrow> precache (run ops init) p \<noteq> None"
proof -
  assume c: "cache (run ops init) p \<noteq> None"
  have i: "\<forall>p. cache init p \<noteq> None \<longrightarrow> precache init p \<noteq> None"
    by (simp add: init_def)
  from i run_grows [of init ops] c show ?thesis
    by (rule cache_in_precache)
qed

lemma get_present:
  "precache r p = Some (mn, src, mt) \<Longrightarrow> in_sys_modules e mn \<Longrightarrow>
   \<exists>cf. get e p r = (Inr (Some cf), snd (get e p r)) \<and> cache (snd (get e p r)) p = Some cf"
proof (cases "cache r p")
  case (Some cf)
  then show ?thesis by (simp add: get_cached)
next
  case None
  assume "precache r p = Some (mn, src, mt)" and "in_sys_modules e mn"
  with None obtain m where "get e p r =
      (Inr (Some \<lparr>cf_id = fresh r, cf_filename = p, cf_source = src, cf_module = m,
                  defnmap = discover e p src m,
                  cf_activity = [RegistryLog, ForwardToActivity]\<rparr>),
       r\<lparr>cache := (cache r)(p \<mapsto>
            \<lparr>cf_id = fresh r, cf_filename = p, cf_source = src, cf_module = m,
             defnmap = discover e p src m,
             cf_activity = [RegistryLog, ForwardToActivity]\<rparr>),
         fresh := Suc (fresh r)\<rparr>)"
    using get_promote [of r p mn src mt e] by blast
  then show ?thesis by simp
qed

lemma get_keeps_precache:
  "precache r p = Some s \<Longrightarrow> precache (snd (get e p r)) p = Some s"
  using get_grows [of r e p] by (rule grows_precacheD)

lemma cached_stable:
  "cache r p = Some cf \<Longrightarrow> get e p (run ops r) = (Inr (Some cf), run ops r)"
  by (simp add: run_cache get_cached)

subsection \<open>The two tables\<close>

text \<open>
  Against claim C1 as stated: after \<^verbatim>\<open>prepare("a", "a.py")\<close> and \<^verbatim>\<open>get("a.py")\<close>
  on a new registry, with the module \<^verbatim>\<open>a\<close> loaded, the path \<^verbatim>\<open>a.py\<close> is a
  key of the precache (with the snapshot \<open>prepare\<close> stored) and a key of the cache
  (with the entity of identity 0 that \<open>get\<close> built). \<^verbatim>\<open>get\<close> has no statement that
  removes a key from \<^verbatim>\<open>self.precache\<close>.
\<close>

theorem tables_overlap_counterexample:
  "precache (run [(env_a, Prepare (Some ''a'') ''a.py''), (env_a, Get ''a.py'')] init) ''a.py''
     = Some (Some ''a'', ''def f(): pass'', 17) \<and>
   map_option cf_id
     (cache (run [(env_a, Prepare (Some ''a'') ''a.py''), (env_a, Get ''a.py'')] init) ''a.py'')
     = Some 0"
  by (simp add: prepare_def get_def getitem_def in_sys_modules_def sys_modules_getitem_def
      init_def env_a_def env_none_def mod_a_def Let_def)

text \<open>
  Claim C1, amended. At every point of any sequence of registry operations on a new
  registry, every path in the cache is also in the precache. From any state, a
  sequence of operations keeps every precache entry and every cache entry as it is:
  no entry leaves a table or is replaced. When \<open>get\<close> promotes the precache entry of
  \<open>p\<close> (an entry is there, the cache has none, the module is loaded), the entry stays
  in the precache and \<open>p\<close> is in the cache as well.
\<close>

theorem tables_only_grow:
  "(\<forall>p. cache (run ops init) p \<noteq> None \<longrightarrow> precache (run ops init) p \<noteq> None) \<and>
   (precache r p = Some s \<longrightarrow> precache (run ops r) p = Some s) \<and>
   (cache r p = Some cf \<longrightarrow> cache (run ops r) p = Some cf) \<and>
   (precache r p = Some (mn, src, mt) \<and> cache r p = None \<and> in_sys_modules e mn \<longrightarrow>
      precache (snd (get e p r)) p = Some (mn, src, mt) \<and> cache (snd (get e p r)) p \<noteq> None)"
proof -
  have c1: "\<forall>p. cache (run ops init) p \<noteq> None \<longrightarrow> precache (run ops init) p \<noteq> None"
    by (simp add: run_init_cache_in_precache)
  have c2: "precache r p = Some s \<longrightarrow> precache (run ops r) p = Some s"
    by (simp add: run_precache)
  have c3: "cache r p = Some cf \<longrightarrow> cache (run ops r) p = Some cf"
    by (simp add: run_cache)
  have c4: "precache r p = Some (mn, src, mt) \<and> cache r p = None \<and> in_sys_modules e mn \<longrightarrow>
      precache (snd (get e p r)) p = Some (mn, src, mt) \<and> cache (snd (get e p r)) p \<noteq> None"
  proof
    assume a: "precache r p = Some (mn, src, mt) \<and> cache r p = None \<and> in_sys_modules e mn"
    then have k: "precache (snd (get e p r)) p = Some (mn, src, mt)"
      by (simp add: get_keeps_precache)
    from a obtain cf' where "cache (snd (get e p r)) p = Some cf'"
      using get_present [of r p mn src mt e] by blast
    with k show "precache (snd (get e p r)) p = Some (mn, src, mt) \<and>
        cache (snd (get e p r)) p \<noteq> None"
      by simp
  qed
  show ?thesis
    by (intro conjI) (rule c1, rule c2, rule c3, rule c4)
qed

theorem tables_only_grow_witness:
  "cache (run [(env_a, Prepare (Some ''a'') ''a.py''), (env_a, Get ''a.py'')] init) ''a.py''
     \<noteq> None \<and>
   precache (run [(env_a, Prepare (Some ''a'') ''a.py''), (env_a, Get ''a.py'')] init) ''a.py''
     \<noteq> None \<and>
   precache (snd (prepare env_a (Some ''a'') ''a.py'' init)) ''a.py''
     = Some (Some ''a'', ''def f(): pass'', 17) \<and>
   cache (snd (prepare env_a (Some ''a'') ''a.py'' init)) ''a.py'' = None \<and>
   in_sys_modules env_a (Some ''a'') \<and>
   precache (run [(env_a, Get ''a.py'')] (snd (prepare env_a (Some ''a'') ''a.py'' init)))
     ''a.py'' = Some (Some ''a'', ''def f(): pass'', 17) \<and>
   precache (snd (get env_a ''a.py'' (snd (prepare env_a (Some ''a'') ''a.py'' init))))
     ''a.py'' = Some (Some ''a'', ''def f(): pass'', 17) \<and>
   cache (snd (get env_a ''a.py'' (snd (prepare env_a (Some ''a'') ''a.py'' init)))) ''a.py''
     \<noteq> None"
proof -
  define r' where "r' = snd (prepare env_a (Some ''a'') ''a.py'' init)"
  define r'' where
    "r'' = run [(env_a, Prepare (Some ''a'') ''a.py''), (env_a, Get ''a.py'')] init"
  have pre: "precache r' ''a.py'' = Some (Some ''a'', ''def f(): pass'', 17)"
    and nc: "cache r' ''a.py'' = None"
    by (simp_all add: r'_def prepare_def init_def env_a_def env_none_def Let_def)
  have ld: "in_sys_modules env_a (Some ''a'')"
    by (simp add: in_sys_modules_def env_a_def)
  note t = tables_only_grow [where r = r' and p = "''a.py''"
      and s = "(Some ''a'', ''def f(): pass'', 17)" and ops = "[(env_a, Get ''a.py'')]"
      and mn = "Some ''a''" and src = "''def f(): pass''" and mt = 17 and e = env_a]
  note u = tables_only_grow
    [where ops = "[(env_a, Prepare (Some ''a'') ''a.py''), (env_a, Get ''a.py'')]"]
  have k: "precache (run [(env_a, Get ''a.py'')] r') ''a.py''
      = Some (Some ''a'', ''def f(): pass'', 17)"
    by (rule t [THEN conjunct2, THEN conjunct1, rule_format]) (rule pre)
  have g: "precache (snd (get env_a ''a.py'' r')) ''a.py''
        = Some (Some ''a'', ''def f(): pass'', 17) \<and>
      cache (snd (get env_a ''a.py'' r')) ''a.py'' \<noteq> None"
    by (rule t [THEN conjunct2, THEN conjunct2, THEN conjunct2, rule_format])
      (simp add: pre nc ld)
  have cc: "cache r'' ''a.py'' \<noteq> None"
    using g by (simp add: r''_def r'_def)
  have pp: "precache r'' ''a.py'' \<noteq> None"
    unfolding r''_def
    by (rule u [THEN conjunct1, rule_format]) (rule cc [unfolded r''_def])
  from cc pp pre nc ld k g show ?thesis
    unfolding r'_def r''_def by simp
qed

subsection \<open>The entity of a prepared file\<close>

text \<open>
  Against claim C5 as stated: \<^verbatim>\<open>prepare("old", "a.py")\<close> followed by
  \<^verbatim>\<open>prepare("a", "a.py")\<close>, both returning normally, with the module \<^verbatim>\<open>a\<close>
  loaded and no module \<^verbatim>\<open>old\<close>. The second call finds the path in the precache and
  stores nothing, so the entry names \<^verbatim>\<open>old\<close>, and \<^verbatim>\<open>get("a.py")\<close> returns
  \<^verbatim>\<open>None\<close> although \<^verbatim>\<open>prepare("a", "a.py")\<close> has been called and \<^verbatim>\<open>a\<close> is
  loaded.
\<close>

theorem get_after_prepare_counterexample:
  "fst (prepare env_a (Some ''old'') ''a.py'' init) = Inr () \<and>
   fst (prepare env_a (Some ''a'') ''a.py'' (snd (prepare env_a (Some ''old'') ''a.py'' init)))
     = Inr () \<and>
   in_sys_modules env_a (Some ''a'') \<and>
   fst (get env_a ''a.py''
     (snd (prepare env_a (Some ''a'') ''a.py''
        (snd (prepare env_a (Some ''old'') ''a.py'' init))))) = Inr None"
  by (simp add: prepare_def get_def getitem_def in_sys_modules_def sys_modules_getitem_def
      init_def env_a_def env_none_def mod_a_def Let_def)

text \<open>
  Claim C5, amended. Let \<open>prepare mn p\<close> return normally on a registry in which \<open>p\<close>
  is in neither table (so this call stores the entry), let any operations \<open>ops\<close>
  follow, and let the module \<open>mn\<close> be loaded when \<open>get p\<close> is called. Then \<open>get p\<close>
  returns an entity \<open>cf\<close>, and after any further operations \<open>ops'\<close>, in any
  environment \<open>e'\<close> (the module may be gone), \<open>get p\<close> returns the same \<open>cf\<close>, identity
  included, and leaves the state as it is: nothing is built again.
\<close>

theorem get_after_prepare:
  "precache r p = None \<and> cache r p = None \<and> prepare e0 mn p r = (Inr (), r') \<and>
   in_sys_modules e mn \<longrightarrow>
   (\<exists>cf. get e p (run ops r') = (Inr (Some cf), snd (get e p (run ops r'))) \<and>
      (\<forall>ops' e'. get e' p (run ops' (snd (get e p (run ops r')))) =
         (Inr (Some cf), run ops' (snd (get e p (run ops r'))))))"
proof
  assume a: "precache r p = None \<and> cache r p = None \<and> prepare e0 mn p r = (Inr (), r') \<and>
    in_sys_modules e mn"
  then obtain src mt where "precache r' p = Some (mn, src, mt)"
    using prepare_stores [of r p e0 mn r'] by blast
  then have "precache (run ops r') p = Some (mn, src, mt)"
    by (rule run_precache)
  with a obtain cf where g: "get e p (run ops r') = (Inr (Some cf), snd (get e p (run ops r')))"
    and c: "cache (snd (get e p (run ops r'))) p = Some cf"
    using get_present [of "run ops r'" p mn src mt e] by blast
  have "\<forall>ops' e'. get e' p (run ops' (snd (get e p (run ops r')))) =
      (Inr (Some cf), run ops' (snd (get e p (run ops r'))))"
    using c by (simp add: cached_stable)
  with g show "\<exists>cf. get e p (run ops r') = (Inr (Some cf), snd (get e p (run ops r'))) \<and>
      (\<forall>ops' e'. get e' p (run ops' (snd (get e p (run ops r')))) =
         (Inr (Some cf), run ops' (snd (get e p (run ops r')))))"
    by blast
qed

theorem get_after_prepare_witness:
  "precache init ''a.py'' = None \<and> cache init ''a.py'' = None \<and>
   fst (prepare env_a (Some ''a'') ''a.py'' init) = Inr () \<and>
   in_sys_modules env_a (Some ''a'') \<and>
   (\<exists>cf. fst (get env_a ''a.py'' (snd (prepare env_a (Some ''a'') ''a.py'' init)))
        = Inr (Some cf) \<and>
      fst (get env_none ''a.py''
        (run [(env_none, Find ''a.py'' 1)]
          (snd (get env_a ''a.py'' (snd (prepare env_a (Some ''a'') ''a.py'' init))))))
        = Inr (Some cf))"
proof -
  define r' where "r' = snd (prepare env_a (Some ''a'') ''a.py'' init)"
  have h: "precache init ''a.py'' = None \<and> cache init ''a.py'' = None"
    by (simp add: init_def)
  have ok: "fst (prepare env_a (Some ''a'') ''a.py'' init) = Inr ()"
    by (simp add: prepare_def init_def env_a_def env_none_def Let_def)
  have ld: "in_sys_modules env_a (Some ''a'')"
    by (simp add: in_sys_modules_def env_a_def)
  have pr: "prepare env_a (Some ''a'') ''a.py'' init = (Inr (), r')"
    using ok by (simp add: prod_eq_iff r'_def)
  note t = get_after_prepare [where r = init and p = "''a.py''" and ?e0.0 = env_a
      and mn = "Some ''a''" and r' = r' and e = env_a and ops = "[]"]
  have "\<exists>cf. get env_a ''a.py'' (run [] r') = (Inr (Some cf), snd (get env_a ''a.py'' (run [] r'))) \<and>
      (\<forall>ops' e'. get e' ''a.py'' (run ops' (snd (get env_a ''a.py'' (run [] r')))) =
         (Inr (Some cf), run ops' (snd (get env_a ''a.py'' (run [] r')))))"
    by (rule t [rule_format]) (simp add: h pr ld)
  then obtain cf where g: "get env_a ''a.py'' r' = (Inr (Some cf), snd (get env_a ''a.py'' r'))"
    and st: "\<forall>ops' e'. get e' ''a.py'' (run ops' (snd (get env_a ''a.py'' r'))) =
         (Inr (Some cf), run ops' (snd (get env_a ''a.py'' r')))"
    by auto
  have g1: "fst (get env_a ''a.py'' r') = Inr (Some cf)"
    using g by (simp add: prod_eq_iff)
  have g2: "fst (get env_none ''a.py''
      (run [(env_none, Find ''a.py'' 1)] (snd (get env_a ''a.py'' r')))) = Inr (Some cf)"
    using st [rule_format, of env_none "[(env_none, Find ''a.py'' 1)]"]
    by (simp only: fst_conv)
  from g1 g2 have "\<exists>cf. fst (get env_a ''a.py'' r') = Inr (Some cf) \<and>
      fst (get env_none ''a.py''
        (run [(env_none, Find ''a.py'' 1)] (snd (get env_a ''a.py'' r')))) = Inr (Some cf)"
    by blast
  with h ok ld show ?thesis
    unfolding r'_def by simp
qed

subsection \<open>The sniffer\<close>

lemma find_module_working: "working s \<Longrightarrow> find_module report a s = (Inr None, s)"
  by (cases a) simp

lemma find_spec_working: "working s \<Longrightarrow> find_spec report as outcome s = (outcome, s)"
  by (induction as) (simp_all add: find_module_working)

text \<open>What an invocation entered with the flag clear does: the nested attempts change
  nothing, so the result depends on the outcome of the resolution and on the callback
  alone.\<close>

lemma find_module_top:
  "\<not> working s \<Longrightarrow>
   find_module report (Attempt spec path nested outcome) s =
     (case outcome of
        Inl err \<Rightarrow> (Inl err, s\<lparr>working := True, resolved := resolved s @ [spec]\<rparr>)
      | Inr None \<Rightarrow> (Inr None, s\<lparr>working := False, resolved := resolved s @ [spec]\<rparr>)
      | Inr (Some ms) \<Rightarrow>
          (case (ms_loader ms, ms_name ms, ms_origin ms) of
             (SourceFileLoader, Some n, Some f) \<Rightarrow>
               (case report n f (cb_state s) of
                  (Inr u, c) \<Rightarrow>
                    (Inr None,
                     s\<lparr>working := False, resolved := resolved s @ [spec], cb_state := c,
                       reports := reports s @ [(n, f)]\<rparr>)
                | (Inl err, c) \<Rightarrow>
                    if is_Exception err then
                      (Inr None,
                       s\<lparr>working := False, resolved := resolved s @ [spec], cb_state := c,
                         reports := reports s @ [(n, f)],
                         logged := logged s @ [(n, err)]\<rparr>)
                    else
                      (Inl err,
                       s\<lparr>working := True, resolved := resolved s @ [spec], cb_state := c,
                         reports := reports s @ [(n, f)]\<rparr>))
           | _ \<Rightarrow> (Inr None, s\<lparr>working := False, resolved := resolved s @ [spec]\<rparr>)))"
  by (simp add: find_spec_working split: sum.splits option.splits loader.splits prod.splits)

text \<open>When \<^verbatim>\<open>importlib.util.find_spec\<close> raises, the exception leaves
  \<^verbatim>\<open>find_module\<close> and the flag stays set.\<close>

lemma find_module_resolution_raises:
  assumes "\<not> working s"
  shows "find_module report (Attempt spec path nested (Inl err)) s =
     (Inl err, s\<lparr>working := True, resolved := resolved s @ [spec]\<rparr>)"
  unfolding find_module_top [OF assms] by simp

lemma find_module_reports:
  "length (reports (snd (find_module report a s))) \<le> Suc (length (reports s))"
proof (cases "working s")
  case True
  then show ?thesis by (simp add: find_module_working)
next
  case False
  obtain spec path nested outcome where a: "a = Attempt spec path nested outcome"
    by (cases a)
  show ?thesis
    unfolding a find_module_top [OF False]
    by (simp split: sum.splits option.splits loader.splits prod.splits)
qed

lemma find_module_resolved:
  "resolved (snd (find_module report (Attempt spec path nested outcome) s)) =
     (if working s then resolved s else resolved s @ [spec])"
proof (cases "working s")
  case True
  then show ?thesis by (simp add: find_module_working)
next
  case False
  show ?thesis
    unfolding find_module_top [OF False]
    using False by (simp split: sum.splits option.splits loader.splits prod.splits)
qed

lemma prepare_opened:
  "length (opened (snd (prepare e mn p r))) \<le> Suc (length (opened r))"
  by (simp add: prepare_def Let_def split: sum.splits)

lemma prep_opened:
  "length (opened (snd (prep flt e mn fo r))) \<le> Suc (length (opened r))"
  by (simp add: prep_def prepare_opened split: option.splits)

lemma find_module_opened:
  "length (opened (cb_state (snd (find_module (registry_report flt e) a s))))
     \<le> Suc (length (opened (cb_state s)))"
proof (cases "working s")
  case True
  then show ?thesis by (simp add: find_module_working)
next
  case False
  obtain spec path nested outcome where a: "a = Attempt spec path nested outcome"
    by (cases a)
  have p: "\<And>n f c res. registry_report flt e n f (cb_state s) = (res, c) \<Longrightarrow>
      length (opened c) \<le> Suc (length (opened (cb_state s)))"
  proof -
    fix n f c res
    assume "registry_report flt e n f (cb_state s) = (res, c)"
    then have "c = snd (prep flt e (Some n) (Some f) (cb_state s))"
      by (simp add: registry_report_def)
    then show "length (opened c) \<le> Suc (length (opened (cb_state s)))"
      by (simp add: prep_opened)
  qed
  show ?thesis
    unfolding a find_module_top [OF False]
    by (auto split: sum.splits option.splits loader.splits prod.splits dest: p)
qed

lemma find_module_caught:
  assumes ex: "\<forall>n f c err. fst (report n f c) = Inl err \<longrightarrow> is_Exception err"
    and top: "\<not> working s"
  shows "fst (find_module report (Attempt spec path nested (Inr x)) s) = Inr None"
    and "\<not> working (snd (find_module report (Attempt spec path nested (Inr x)) s))"
proof -
  have e: "\<And>n f c err. report n f (cb_state s) = (Inl err, c) \<Longrightarrow> is_Exception err"
  proof -
    fix n f c err
    assume "report n f (cb_state s) = (Inl err, c)"
    then have "fst (report n f (cb_state s)) = Inl err" by simp
    with ex show "is_Exception err" by blast
  qed
  show "fst (find_module report (Attempt spec path nested (Inr x)) s) = Inr None"
    unfolding find_module_top [OF top]
    by (auto split: sum.splits option.splits loader.splits prod.splits dest: e)
  show "\<not> working (snd (find_module report (Attempt spec path nested (Inr x)) s))"
    unfolding find_module_top [OF top]
    by (auto split: sum.splits option.splits loader.splits prod.splits dest: e)
qed

lemma find_module_logged:
  assumes "is_Exception err" and "\<not> working s"
    and "ms_loader ms = SourceFileLoader" and "ms_name ms = Some n"
    and "ms_origin ms = Some f" and "fst (report n f (cb_state s)) = Inl err"
  shows "logged (snd (find_module report (Attempt spec path nested (Inr (Some ms))) s)) =
    logged s @ [(n, err)]"
proof -
  obtain c where "report n f (cb_state s) = (Inl err, c)"
    using assms(6) by (cases "report n f (cb_state s)") simp
  with assms show ?thesis
    unfolding find_module_top [OF assms(2)] by simp
qed

subsection \<open>Reentrant invocations\<close>

text \<open>
  Claim C4. An invocation of \<open>find_module\<close> entered with the flag \<open>working\<close> set
  returns \<^verbatim>\<open>None\<close> and leaves the sniffer as it is: no resolution is performed and
  the callback is not called. Consequently an invocation, whatever nested attempts
  its resolution presents to the sniffer, calls the callback at most once; it
  performs one resolution, its own, when entered with the flag clear and none
  otherwise; and with the callback of \<open>auto_register\<close> it opens at most one file, that
  is, reaches at most one \<open>prepare\<close> that reads.
\<close>

theorem find_module_reentrant:
  "(working s \<longrightarrow> find_module report a s = (Inr None, s)) \<and>
   length (reports (snd (find_module report a s))) \<le> Suc (length (reports s)) \<and>
   resolved (snd (find_module report (Attempt spec path nested outcome) s)) =
     (if working s then resolved s else resolved s @ [spec]) \<and>
   length (opened (cb_state (snd (find_module (registry_report flt e) a t))))
     \<le> Suc (length (opened (cb_state t)))"
proof -
  have c1: "working s \<longrightarrow> find_module report a s = (Inr None, s)"
    by (simp add: find_module_working)
  have c2: "length (reports (snd (find_module report a s))) \<le> Suc (length (reports s))"
    by (rule find_module_reports)
  have c3: "resolved (snd (find_module report (Attempt spec path nested outcome) s)) =
     (if working s then resolved s else resolved s @ [spec])"
    by (rule find_module_resolved)
  have c4: "length (opened (cb_state (snd (find_module (registry_report flt e) a t))))
     \<le> Suc (length (opened (cb_state t)))"
    by (rule find_module_opened)
  show ?thesis
    by (intro conjI) (rule c1, rule c2, rule c3, rule c4)
qed

theorem find_module_reentrant_witness:
  "working busy_sniffer \<and>
   find_module report_ok attempt_a busy_sniffer = (Inr None, busy_sniffer) \<and>
   length (reports (snd (find_module (registry_report accept_all env_a) attempt_a
      (new_sniffer init)))) \<le> Suc 0 \<and>
   reports (snd (find_module (registry_report accept_all env_a) attempt_a
      (new_sniffer init))) = [(''a'', ''a.py'')] \<and>
   opened (cb_state (snd (find_module (registry_report accept_all env_a) attempt_a
      (new_sniffer init)))) = [''a.py'']"
proof -
  have w: "working busy_sniffer"
    by (simp add: busy_sniffer_def)
  note t = find_module_reentrant [where s = busy_sniffer and report = report_ok
      and a = attempt_a]
  have a: "find_module report_ok attempt_a busy_sniffer = (Inr None, busy_sniffer)"
    by (rule t [THEN conjunct1, rule_format]) (rule w)
  note u = find_module_reentrant [where s = "new_sniffer init"
      and report = "registry_report accept_all env_a" and a = attempt_a]
  have "length (reports (snd (find_module (registry_report accept_all env_a) attempt_a
      (new_sniffer init)))) \<le> Suc (length (reports (new_sniffer init)))"
    by (rule u [THEN conjunct2, THEN conjunct1])
  then have b: "length (reports (snd (find_module (registry_report accept_all env_a)
      attempt_a (new_sniffer init)))) \<le> Suc 0"
    by (simp add: new_sniffer_def)
  have nw: "\<not> working (new_sniffer init)"
    by (simp add: new_sniffer_def)
  have pr: "registry_report accept_all env_a ''a'' ''a.py'' init =
      (Inr (), snd (prepare env_a (Some ''a'') ''a.py'' init))"
    by (simp add: registry_report_def prep_def accept_all_def prepare_def init_def
        env_a_def env_none_def Let_def)
  have cs: "cb_state (new_sniffer init) = init"
    by (simp add: new_sniffer_def)
  have c: "reports (snd (find_module (registry_report accept_all env_a) attempt_a
      (new_sniffer init))) = [(''a'', ''a.py'')]"
    unfolding attempt_a_def find_module_top [OF nw]
    by (simp add: spec_a_def cs pr) (simp add: new_sniffer_def)
  have d: "opened (cb_state (snd (find_module (registry_report accept_all env_a) attempt_a
      (new_sniffer init)))) = [''a.py'']"
    unfolding attempt_a_def find_module_top [OF nw]
    by (simp add: spec_a_def cs pr)
      (simp add: prepare_def init_def env_a_def env_none_def Let_def)
  from w a b c d show ?thesis
    by simp
qed

subsection \<open>What \<open>find_module\<close> returns\<close>

text \<open>
  Against claim C3 as stated. A callback that raises \<^verbatim>\<open>KeyboardInterrupt\<close>, which
  \<^verbatim>\<open>except Exception\<close> does not catch: the exception leaves \<open>find_module\<close>,
  nothing is logged, and the flag stays set. And an invocation entered with the flag
  set (a nested one) returns with the flag set.
\<close>

theorem find_module_counterexample:
  "fst (find_module report_interrupted attempt_a (new_sniffer ())) = Inl KeyboardInterrupt \<and>
   working (snd (find_module report_interrupted attempt_a (new_sniffer ()))) \<and>
   logged (snd (find_module report_interrupted attempt_a (new_sniffer ()))) = [] \<and>
   working (snd (find_module report_ok attempt_a busy_sniffer))"
proof -
  have nw: "\<not> working (new_sniffer ())"
    by (simp add: new_sniffer_def)
  have a: "find_module report_interrupted attempt_a (new_sniffer ()) =
      (Inl KeyboardInterrupt,
       (new_sniffer ())\<lparr>working := True, resolved := resolved (new_sniffer ()) @ [''a''],
          cb_state := (), reports := reports (new_sniffer ()) @ [(''a'', ''a.py'')]\<rparr>)"
    unfolding attempt_a_def find_module_top [OF nw]
    by (simp add: spec_a_def report_interrupted_def)
  have b: "find_module report_ok attempt_a busy_sniffer = (Inr None, busy_sniffer)"
    by (rule find_module_working) (simp add: busy_sniffer_def)
  show ?thesis
    unfolding a b by (simp add: new_sniffer_def busy_sniffer_def)
qed

text \<open>
  Claim C3, amended. Let the resolution of the attempt return (a spec or \<^verbatim>\<open>None\<close>)
  and let the callback raise nothing but exceptions of class \<^verbatim>\<open>Exception\<close>. Then
  \<open>find_module\<close> returns \<^verbatim>\<open>None\<close>; an invocation entered with the flag clear
  returns with the flag clear, and one entered with the flag set leaves the sniffer as
  it found it; and when the callback is called and raises, the exception is logged
  under the name of the spec and does not leave \<open>find_module\<close>.
\<close>

theorem find_module_no_opinion:
  "(\<forall>n f c err. fst (report n f c) = Inl err \<longrightarrow> is_Exception err) \<longrightarrow>
   fst (find_module report (Attempt spec path nested (Inr x)) s) = Inr None \<and>
   (\<not> working s \<longrightarrow>
      \<not> working (snd (find_module report (Attempt spec path nested (Inr x)) s))) \<and>
   (working s \<longrightarrow> snd (find_module report (Attempt spec path nested (Inr x)) s) = s) \<and>
   (\<not> working s \<and> x = Some ms \<and> ms_loader ms = SourceFileLoader \<and> ms_name ms = Some n \<and>
    ms_origin ms = Some f \<and> fst (report n f (cb_state s)) = Inl err \<longrightarrow>
      logged (snd (find_module report (Attempt spec path nested (Inr x)) s)) =
        logged s @ [(n, err)])"
proof
  assume ex: "\<forall>n f c err. fst (report n f c) = Inl err \<longrightarrow> is_Exception err"
  have c1: "fst (find_module report (Attempt spec path nested (Inr x)) s) = Inr None"
  proof (cases "working s")
    case True
    then show ?thesis by (simp add: find_module_working)
  next
    case False
    with ex show ?thesis by (rule find_module_caught(1))
  qed
  have c2: "\<not> working s \<longrightarrow>
      \<not> working (snd (find_module report (Attempt spec path nested (Inr x)) s))"
    using ex by (blast intro: find_module_caught(2) [THEN notE])
  have c3: "working s \<longrightarrow> snd (find_module report (Attempt spec path nested (Inr x)) s) = s"
    by (simp add: find_module_working)
  have c4: "\<not> working s \<and> x = Some ms \<and> ms_loader ms = SourceFileLoader \<and>
      ms_name ms = Some n \<and> ms_origin ms = Some f \<and>
      fst (report n f (cb_state s)) = Inl err \<longrightarrow>
      logged (snd (find_module report (Attempt spec path nested (Inr x)) s)) =
        logged s @ [(n, err)]"
  proof
    assume a: "\<not> working s \<and> x = Some ms \<and> ms_loader ms = SourceFileLoader \<and>
      ms_name ms = Some n \<and> ms_origin ms = Some f \<and>
      fst (report n f (cb_state s)) = Inl err"
    then have ie: "is_Exception err" using ex by blast
    from a have x: "x = Some ms" by blast
    show "logged (snd (find_module report (Attempt spec path nested (Inr x)) s)) =
        logged s @ [(n, err)]"
      unfolding x using ie a by (intro find_module_logged) blast+
  qed
  show "fst (find_module report (Attempt spec path nested (Inr x)) s) = Inr None \<and>
   (\<not> working s \<longrightarrow>
      \<not> working (snd (find_module report (Attempt spec path nested (Inr x)) s))) \<and>
   (working s \<longrightarrow> snd (find_module report (Attempt spec path nested (Inr x)) s) = s) \<and>
   (\<not> working s \<and> x = Some ms \<and> ms_loader ms = SourceFileLoader \<and> ms_name ms = Some n \<and>
    ms_origin ms = Some f \<and> fst (report n f (cb_state s)) = Inl err \<longrightarrow>
      logged (snd (find_module report (Attempt spec path nested (Inr x)) s)) =
        logged s @ [(n, err)])"
    by (intro conjI) (rule c1, rule c2, rule c3, rule c4)
qed

theorem find_module_no_opinion_witness:
  "fst (report_failing ''a'' ''a.py'' (cb_state (new_sniffer ()))) = Inl RuntimeError \<and>
   is_Exception RuntimeError \<and>
   \<not> working (new_sniffer ()) \<and>
   fst (find_module report_failing attempt_a (new_sniffer ())) = Inr None \<and>
   \<not> working (snd (find_module report_failing attempt_a (new_sniffer ()))) \<and>
   logged (snd (find_module report_failing attempt_a (new_sniffer ()))) =
     [(''a'', RuntimeError)] \<and>
   working busy_sniffer \<and>
   snd (find_module report_failing attempt_a busy_sniffer) = busy_sniffer"
proof -
  have ex: "\<forall>n f c err. fst (report_failing n f c) = Inl err \<longrightarrow> is_Exception err"
    by (auto simp: report_failing_def)
  have nw: "\<not> working (new_sniffer ())"
    by (simp add: new_sniffer_def)
  have w: "working busy_sniffer"
    by (simp add: busy_sniffer_def)
  have rf: "fst (report_failing ''a'' ''a.py'' (cb_state (new_sniffer ()))) = Inl RuntimeError"
    by (simp add: report_failing_def)
  note t = find_module_no_opinion [where report = report_failing and spec = "''a''"
      and path = None
      and nested = "[Attempt ''a'' None [] (Inr (Some spec_a)),
                     Attempt ''os'' None [] (Inr None)]"
      and x = "Some spec_a" and s = "new_sniffer ()" and ms = spec_a and n = "''a''"
      and f = "''a.py''" and err = RuntimeError, folded attempt_a_def, THEN mp, OF ex]
  note u = find_module_no_opinion [where report = report_failing and spec = "''a''"
      and path = None
      and nested = "[Attempt ''a'' None [] (Inr (Some spec_a)),
                     Attempt ''os'' None [] (Inr None)]"
      and x = "Some spec_a" and s = busy_sniffer, folded attempt_a_def, THEN mp, OF ex]
  have a: "fst (find_module report_failing attempt_a (new_sniffer ())) = Inr None"
    by (rule t [THEN conjunct1])
  have b: "\<not> working (snd (find_module report_failing attempt_a (new_sniffer ())))"
    by (rule t [THEN conjunct2, THEN conjunct1, rule_format]) (rule nw)
  have "logged (snd (find_module report_failing attempt_a (new_sniffer ()))) =
      logged (new_sniffer ()) @ [(''a'', RuntimeError)]"
    by (rule t [THEN conjunct2, THEN conjunct2, THEN conjunct2, rule_format])
      (simp add: nw report_failing_def spec_a_def)
  then have c: "logged (snd (find_module report_failing attempt_a (new_sniffer ()))) =
      [(''a'', RuntimeError)]"
    by (simp add: new_sniffer_def)
  have d: "snd (find_module report_failing attempt_a busy_sniffer) = busy_sniffer"
    by (rule u [THEN conjunct2, THEN conjunct2, THEN conjunct1, rule_format]) (rule w)
  from rf nw a b c w d show ?thesis
    by simp
qed

end
